theory Spec2Isabelle
  imports Main "HOL-Library.Word" "HOL-Library.Sublist"
begin

section \<open>The FUSE mount command of rclone (cmd/mount/mount.go)\<close>

text \<open>
  The file holds three functions: \<open>mountOptions\<close> turns the command line flags into the
  option list handed to \<open>fuse.Mount\<close>; \<open>mount\<close> establishes the mount and starts the
  goroutine that serves it; \<open>Mount\<close> waits in a \<open>select\<close> loop for the serve result, an
  interrupt or a hang-up, and produces the final error.

  A Go \<open>error\<close> is modelled by its message; \<open>nil\<close> is \<open>None\<close>.
\<close>

type_synonym error = string

subsection \<open>Flags and mount options\<close>

text \<open>
  The package-level flag variables \<open>mountOptions\<close> and \<open>Mount\<close> read: those of
  \<open>mountlib\<close>, and \<open>vfsflags.Opt.ReadOnly\<close>. \<open>mountlib.MaxReadAhead\<close> is an
  \<open>fs.SizeSuffix\<close>, a 64-bit integer.
\<close>

record flags =
  MaxReadAhead :: "64 word"
  AllowNonEmpty :: bool
  AllowOther :: bool
  AllowRoot :: bool
  DefaultPermissions :: bool
  Opt_ReadOnly :: bool
  WritebackCache :: bool
  ExtraOptions :: "string list"
  DebugFUSE :: bool

text \<open>The values of \<open>fuse.MountOption\<close> the file builds, one constructor for each.\<close>

datatype MountOption =
    fuse_MaxReadahead "32 word"
  | fuse_Subtype string
  | fuse_FSName string
  | fuse_VolumeName string
  | fuse_NoAppleDouble
  | fuse_NoAppleXattr
  | fuse_AllowNonEmptyMount
  | fuse_AllowOther
  | fuse_AllowRoot
  | fuse_DefaultPermissions
  | fuse_ReadOnly
  | fuse_WritebackCache

text \<open>
  A line written by \<open>fs.Debugf\<close> or \<open>fs.Errorf\<close>: the format string and its arguments.
  (Their first argument, the object the line is about, is left out.)
\<close>

datatype log_entry =
    Debugf string "string list"
  | Errorf string "string list"

text \<open>
  \<open>mountOptions(device)\<close>, lines 26 to 66: six options always, then one option for each
  flag that is set, in the order of the \<open>if\<close> statements; \<open>uint32(...)\<close> keeps the low
  32 bits. The second component is what the function logs.
\<close>

definition mountOptions :: "flags \<Rightarrow> string \<Rightarrow> MountOption list \<times> log_entry list" where
  "mountOptions fl device =
     (let options = [fuse_MaxReadahead (ucast (MaxReadAhead fl)),
                     fuse_Subtype ''rclone'',
                     fuse_FSName device, fuse_VolumeName device,
                     fuse_NoAppleDouble,
                     fuse_NoAppleXattr];
          options = (if AllowNonEmpty fl then options @ [fuse_AllowNonEmptyMount] else options);
          options = (if AllowOther fl then options @ [fuse_AllowOther] else options);
          options = (if AllowRoot fl then options @ [fuse_AllowRoot] else options);
          options = (if DefaultPermissions fl then options @ [fuse_DefaultPermissions] else options);
          options = (if Opt_ReadOnly fl then options @ [fuse_ReadOnly] else options);
          options = (if WritebackCache fl then options @ [fuse_WritebackCache] else options);
          logged = (if length (ExtraOptions fl) > 0
                    then [Errorf ''-o/--option not supported with this FUSE backend'' []] else []);
          logged = (if length (ExtraOptions fl) > 0
                    then logged @ [Errorf ''--fuse-flag not supported with this FUSE backend'' []]
                    else logged)
      in (options, logged))"

subsection \<open>Channels, signals and the transport's answers\<close>

text \<open>
  A buffered Go channel: its capacity and the values waiting in it, oldest first. A send
  with no room and a receive with nothing waiting block, which is the result \<open>None\<close>
  (no reader or writer is assumed to stand by).
\<close>

record 'a chan =
  cap :: nat
  buf :: "'a list"

definition make_chan :: "nat \<Rightarrow> 'a chan" where
  "make_chan n = \<lparr>cap = n, buf = []\<rparr>"

definition chan_send :: "'a chan \<Rightarrow> 'a \<Rightarrow> 'a chan option" where
  "chan_send c v = (if length (buf c) < cap c then Some (c\<lparr>buf := buf c @ [v]\<rparr>) else None)"

definition chan_recv :: "'a chan \<Rightarrow> ('a \<times> 'a chan) option" where
  "chan_recv c = (case buf c of [] \<Rightarrow> None | v # vs \<Rightarrow> Some (v, c\<lparr>buf := vs\<rparr>))"

text \<open>
  The signals \<open>Mount\<close> registers for with \<open>signal.Notify\<close>. Package \<open>signal\<close> never
  blocks when it sends to a registered channel: a signal that finds the channel full is
  dropped.
\<close>

datatype signal = SIGINT | SIGTERM | SIGHUP

definition notify :: "'a chan \<Rightarrow> 'a \<Rightarrow> 'a chan" where
  "notify c v = (case chan_send c v of Some c' \<Rightarrow> c' | None \<Rightarrow> c)"

text \<open>
  What the calls into \<open>bazil.org/fuse\<close> answer in one run: \<open>fuse.Mount\<close>, the field
  \<open>c.MountError\<close> read after \<open>c.Ready\<close>, \<open>server.Serve\<close>, \<open>c.Close\<close> and
  \<open>fuse.Unmount\<close>. Each is called at most once in a run.
\<close>

record transport =
  fuse_Mount_err :: "error option"
  conn_MountError :: "error option"
  Serve_err :: "error option"
  Close_err :: "error option"
  fuse_Unmount_err :: "error option"

text \<open>The remote \<open>f\<close>, as far as the file looks at it: \<open>f.Name()\<close> and \<open>f.Root()\<close>.\<close>

record Fs =
  Name :: string
  Root :: string

text \<open>What a run does that can be seen from outside, in the order it happens.\<close>

datatype action =
    Logged log_entry
  | Set_fuse_Debug
  | Call_fuse_Mount string "MountOption list"
  | Go_serve
  | Recv_Ready
  | Call_Close
  | Send_errChan "error option"
  | Recv_errChan "error option"
  | Recv_sigInt signal
  | Call_fuse_Unmount string
  | Recv_sigHup signal
  | Call_Root
  | Call_ForgetAll

text \<open>\<open>errors.Wrap(err, message)\<close> for a non-nil \<open>err\<close>: the message, a colon, the cause.\<close>

definition Wrap :: "error \<Rightarrow> string \<Rightarrow> error" where
  "Wrap err message = message @ '': '' @ err"

subsection \<open>Establishing the mount\<close>

text \<open>
  \<open>mount(f, mountpoint)\<close>, lines 74 to 106. On success it returns the channel
  \<open>errChan\<close> (with the VFS and the unmount closure, which carry no data here). The
  goroutine is started at line 86, before \<open>c.Ready\<close> is awaited at line 96.
  \<open>NewFS\<close> and \<open>fusefs.New\<close> only build the values the goroutine serves with, and
  leave no mark in the trace.
\<close>

definition mount ::
  "transport \<Rightarrow> flags \<Rightarrow> Fs \<Rightarrow> string \<Rightarrow> (error + error option chan) \<times> action list" where
  "mount tr fl f mountpoint =
     (let (options, logged) = mountOptions fl (Name f @ '':'' @ Root f);
          t = [Logged (Debugf ''Mounting on %q'' [mountpoint])] @ map Logged logged
              @ [Call_fuse_Mount mountpoint options]
      in case fuse_Mount_err tr of
           Some err \<Rightarrow> (Inl err, t)
         | None \<Rightarrow>
             (let errChan = make_chan 1;
                  t = t @ [Go_serve, Recv_Ready]
              in case conn_MountError tr of
                   Some err \<Rightarrow> (Inl err, t)
                 | None \<Rightarrow> (Inr errChan, t)))"

subsection \<open>The serving goroutine and the wait loop\<close>

text \<open>
  The goroutine of lines 86 to 93 is either still inside \<open>server.Serve\<close>, or blocked in
  its send, or has ended.
\<close>

datatype task_state = Serve_running | Send_blocked | Task_ended

record world =
  errChan :: "error option chan"
  task :: task_state
  sigInt :: "signal chan"
  sigHup :: "signal chan"
  trace :: "action list"

text \<open>
  The rest of the goroutine once \<open>server.Serve\<close> has returned: close the connection,
  keep the serve error or else the close error, send it. It runs once.
\<close>

definition serve_goroutine :: "transport \<Rightarrow> world \<Rightarrow> world" where
  "serve_goroutine tr w =
     (case task w of
        Serve_running \<Rightarrow>
          (let err = Serve_err tr;
               closeErr = Close_err tr;
               err = (if err = None then closeErr else err);
               t = trace w @ [Call_Close]
           in case chan_send (errChan w) err of
                Some c \<Rightarrow> w\<lparr>errChan := c, task := Task_ended, trace := t @ [Send_errChan err]\<rparr>
              | None \<Rightarrow> w\<lparr>task := Send_blocked, trace := t\<rparr>)
      | Send_blocked \<Rightarrow> w
      | Task_ended \<Rightarrow> w)"

text \<open>
  Lines 124 to 127: \<open>sigInt\<close> is registered for SIGINT and SIGTERM, \<open>sigHup\<close> for
  SIGHUP.
\<close>

fun deliver :: "signal \<Rightarrow> world \<Rightarrow> world" where
  "deliver SIGINT w = w\<lparr>sigInt := notify (sigInt w) SIGINT\<rparr>"
| "deliver SIGTERM w = w\<lparr>sigInt := notify (sigInt w) SIGTERM\<rparr>"
| "deliver SIGHUP w = w\<lparr>sigHup := notify (sigHup w) SIGHUP\<rparr>"

text \<open>
  A run is driven by a schedule, the list of what happens next: the serve loop of the
  goroutine returns, the process is sent a signal, or the \<open>select\<close> of line 131 takes
  one of its three cases. A case is taken only when its channel holds a value; a step
  that names a case with an empty channel is skipped, and the \<open>select\<close> waits on. The
  step for the hang-up case carries the error of \<open>FS.Root()\<close> in that round
  (\<open>None\<close>: the lookup succeeds).
\<close>

datatype step =
    Serve_returns
  | Signal signal
  | Select_errChan
  | Select_sigInt
  | Select_sigHup "error option"

text \<open>The closure \<open>unmount\<close> of lines 101 to 103.\<close>

definition unmount :: "transport \<Rightarrow> string \<Rightarrow> error option \<times> action list" where
  "unmount tr mountpoint = (fuse_Unmount_err tr, [Call_fuse_Unmount mountpoint])"

text \<open>
  The loop of lines 129 to 148. The result is the value of \<open>err\<close> at
  \<open>break waitloop\<close>, or \<open>None\<close> when the schedule ends with the loop still waiting in
  its \<open>select\<close>. In the hang-up case \<open>root, err := FS.Root()\<close> declares a new
  \<open>err\<close>, local to the case.
\<close>

fun waitloop :: "transport \<Rightarrow> string \<Rightarrow> world \<Rightarrow> step list \<Rightarrow> error option option \<times> world" where
  "waitloop tr mountpoint w [] = (None, w)"
| "waitloop tr mountpoint w (Serve_returns # ss) =
     waitloop tr mountpoint (serve_goroutine tr w) ss"
| "waitloop tr mountpoint w (Signal s # ss) =
     waitloop tr mountpoint (deliver s w) ss"
| "waitloop tr mountpoint w (Select_errChan # ss) =
     (case chan_recv (errChan w) of
        None \<Rightarrow> waitloop tr mountpoint w ss
      | Some (err, c) \<Rightarrow>
          (Some err, w\<lparr>errChan := c, trace := trace w @ [Recv_errChan err]\<rparr>))"
| "waitloop tr mountpoint w (Select_sigInt # ss) =
     (case chan_recv (sigInt w) of
        None \<Rightarrow> waitloop tr mountpoint w ss
      | Some (s, c) \<Rightarrow>
          (let (err, t) = unmount tr mountpoint
           in (Some err, w\<lparr>sigInt := c, trace := trace w @ [Recv_sigInt s] @ t\<rparr>)))"
| "waitloop tr mountpoint w (Select_sigHup root # ss) =
     (case chan_recv (sigHup w) of
        None \<Rightarrow> waitloop tr mountpoint w ss
      | Some (s, c) \<Rightarrow>
          waitloop tr mountpoint
            (w\<lparr>sigHup := c,
               trace := trace w @ [Recv_sigHup s, Call_Root] @
                 (case root of
                    Some err \<Rightarrow> [Logged (Errorf ''Error reading root: %v'' [err])]
                  | None \<Rightarrow> [Call_ForgetAll])\<rparr>)
            ss)"

subsection \<open>The command\<close>

text \<open>
  The world in which the loop starts: the goroutine is inside \<open>server.Serve\<close>, and the
  two signal channels of lines 124 and 126 are new, each with room for one signal.
\<close>

definition serving :: "error option chan \<Rightarrow> action list \<Rightarrow> world" where
  "serving c t =
     \<lparr>errChan = c, task = Serve_running, sigInt = make_chan 1, sigHup = make_chan 1,
      trace = t\<rparr>"

text \<open>
  \<open>Mount(f, mountpoint)\<close>, lines 111 to 155: what it returns, if the schedule lets it
  return, and what the run did. Lines 112 to 116 install the debug hook of package
  \<open>fuse\<close> when \<open>mountlib.DebugFUSE\<close> is set.
\<close>

datatype outcome = Blocked | Returned "error option"

definition set_debug :: "flags \<Rightarrow> action list" where
  "set_debug fl = (if DebugFUSE fl then [Set_fuse_Debug] else [])"

definition Mount ::
  "transport \<Rightarrow> flags \<Rightarrow> Fs \<Rightarrow> string \<Rightarrow> step list \<Rightarrow> outcome \<times> action list" where
  "Mount tr fl f mountpoint sched =
     (let t0 = set_debug fl in
      case mount tr fl f mountpoint of
        (Inl err, t) \<Rightarrow> (Returned (Some (Wrap err ''failed to mount FUSE fs'')), t0 @ t)
      | (Inr c, t) \<Rightarrow>
          (case waitloop tr mountpoint (serving c (t0 @ t)) sched of
             (None, w) \<Rightarrow> (Blocked, trace w)
           | (Some None, w) \<Rightarrow> (Returned None, trace w)
           | (Some (Some err), w) \<Rightarrow>
               (Returned (Some (Wrap err ''failed to umount FUSE fs'')), trace w)))"

section \<open>Observations on a run\<close>

text \<open>
  What a trace says about the calls and the channel traffic of a run: the mount points
  \<open>fuse.Unmount\<close> was called with, the values sent to and received from \<open>errChan\<close>,
  and the signals received from \<open>sigInt\<close> and \<open>sigHup\<close>.
\<close>

primrec unmount_calls :: "action list \<Rightarrow> string list" where
  "unmount_calls [] = []"
| "unmount_calls (a # t) =
     (case a of Call_fuse_Unmount p \<Rightarrow> p # unmount_calls t | _ \<Rightarrow> unmount_calls t)"

primrec errChan_sends :: "action list \<Rightarrow> error option list" where
  "errChan_sends [] = []"
| "errChan_sends (a # t) =
     (case a of Send_errChan v \<Rightarrow> v # errChan_sends t | _ \<Rightarrow> errChan_sends t)"

primrec errChan_reads :: "action list \<Rightarrow> error option list" where
  "errChan_reads [] = []"
| "errChan_reads (a # t) =
     (case a of Recv_errChan v \<Rightarrow> v # errChan_reads t | _ \<Rightarrow> errChan_reads t)"

primrec sigInt_reads :: "action list \<Rightarrow> signal list" where
  "sigInt_reads [] = []"
| "sigInt_reads (a # t) =
     (case a of Recv_sigInt s \<Rightarrow> s # sigInt_reads t | _ \<Rightarrow> sigInt_reads t)"

primrec sigHup_reads :: "action list \<Rightarrow> signal list" where
  "sigHup_reads [] = []"
| "sigHup_reads (a # t) =
     (case a of Recv_sigHup s \<Rightarrow> s # sigHup_reads t | _ \<Rightarrow> sigHup_reads t)"

text \<open>The first non-nil of the serve loop's error and the error of closing the connection.\<close>

definition serve_result :: "transport \<Rightarrow> error option" where
  "serve_result tr = (case Serve_err tr of Some e \<Rightarrow> Some e | None \<Rightarrow> Close_err tr)"

text \<open>
  A trace in which the loop has not yet left its \<open>select\<close>: nothing was received from
  \<open>errChan\<close> or \<open>sigInt\<close>, and \<open>fuse.Unmount\<close> was not called.
\<close>

definition quiet :: "action list \<Rightarrow> bool" where
  "quiet t = (unmount_calls t = [] \<and> errChan_reads t = [] \<and> sigInt_reads t = [])"

text \<open>Whatever waits in \<open>errChan\<close> is the goroutine's result.\<close>

definition errChan_ok :: "transport \<Rightarrow> world \<Rightarrow> bool" where
  "errChan_ok tr w = (set (buf (errChan w)) \<subseteq> {serve_result tr})"

text \<open>
  The goroutine and its channel agree: while the serve loop runs nothing has been sent,
  once the goroutine has ended exactly its result has been sent, it is never stuck in
  the send, and what has been sent is what has been received and what still waits in
  the channel.
\<close>

definition task_ok :: "transport \<Rightarrow> world \<Rightarrow> bool" where
  "task_ok tr w =
     (cap (errChan w) = 1 \<and> task w \<noteq> Send_blocked \<and>
      errChan_reads (trace w) @ buf (errChan w) = errChan_sends (trace w) \<and>
      (task w = Serve_running \<longrightarrow> errChan_sends (trace w) = []) \<and>
      (task w = Task_ended \<longrightarrow> errChan_sends (trace w) = [serve_result tr]))"

subsection \<open>Schedules and inputs used below\<close>

text \<open>The same schedule with every root lookup succeeding.\<close>

fun root_lookup_ok :: "step \<Rightarrow> step" where
  "root_lookup_ok (Select_sigHup root) = Select_sigHup None"
| "root_lookup_ok Serve_returns = Serve_returns"
| "root_lookup_ok (Signal s) = Signal s"
| "root_lookup_ok Select_errChan = Select_errChan"
| "root_lookup_ok Select_sigInt = Select_sigInt"


text \<open>
  The options a set flag brings, in the order \<open>mountOptions\<close> tests the flags, and the
  options of the flags that are set.
\<close>

definition flag_options :: "((flags \<Rightarrow> bool) \<times> MountOption) list" where
  "flag_options =
     [(AllowNonEmpty, fuse_AllowNonEmptyMount),
      (AllowOther, fuse_AllowOther),
      (AllowRoot, fuse_AllowRoot),
      (DefaultPermissions, fuse_DefaultPermissions),
      (Opt_ReadOnly, fuse_ReadOnly),
      (WritebackCache, fuse_WritebackCache)]"

definition implied_options :: "flags \<Rightarrow> MountOption list" where
  "implied_options fl = map snd (filter (\<lambda>(flag, opt). flag fl) flag_options)"

text \<open>The six options \<open>mountOptions\<close> starts from.\<close>

definition fixed_options :: "flags \<Rightarrow> string \<Rightarrow> MountOption list" where
  "fixed_options fl device =
     [fuse_MaxReadahead (ucast (MaxReadAhead fl)), fuse_Subtype ''rclone'',
      fuse_FSName device, fuse_VolumeName device, fuse_NoAppleDouble, fuse_NoAppleXattr]"

text \<open>
  Example inputs: a read-only mount of \<open>remoteX:\<close>, the same with no flag set, and a
  transport on which \<open>fuse.Mount\<close> and \<open>c.Close\<close> succeed, with the given answers for
  \<open>c.MountError\<close>, \<open>server.Serve\<close> and \<open>fuse.Unmount\<close>.
\<close>

definition ex_flags :: flags where
  "ex_flags = \<lparr>MaxReadAhead = 131072, AllowNonEmpty = False, AllowOther = False,
      AllowRoot = False, DefaultPermissions = False, Opt_ReadOnly = True,
      WritebackCache = False, ExtraOptions = [], DebugFUSE = False\<rparr>"

definition no_flags :: flags where
  "no_flags = \<lparr>MaxReadAhead = 131072, AllowNonEmpty = False, AllowOther = False,
      AllowRoot = False, DefaultPermissions = False, Opt_ReadOnly = False,
      WritebackCache = False, ExtraOptions = [], DebugFUSE = False\<rparr>"

definition ex_remote :: Fs where
  "ex_remote = \<lparr>Name = ''remoteX'', Root = []\<rparr>"

definition ex_transport :: "error option \<Rightarrow> error option \<Rightarrow> error option \<Rightarrow> transport" where
  "ex_transport ready served unmounted =
     \<lparr>fuse_Mount_err = None, conn_MountError = ready, Serve_err = served, Close_err = None,
      fuse_Unmount_err = unmounted\<rparr>"

section \<open>Properties\<close>

subsection \<open>Auxiliary facts\<close>

text \<open>The equations that evaluate a run on given inputs.\<close>

lemmas run_defs = Mount_def mount_def mountOptions_def set_debug_def serving_def make_chan_def
  serve_goroutine_def chan_send_def chan_recv_def notify_def unmount_def Wrap_def
  ex_flags_def ex_remote_def ex_transport_def Let_def

text \<open>The observations distribute over the parts of a trace.\<close>

lemma unmount_calls_append [simp]: "unmount_calls (t @ u) = unmount_calls t @ unmount_calls u"
  by (induction t) (simp_all split: action.split)

lemma errChan_sends_append [simp]: "errChan_sends (t @ u) = errChan_sends t @ errChan_sends u"
  by (induction t) (simp_all split: action.split)

lemma errChan_reads_append [simp]: "errChan_reads (t @ u) = errChan_reads t @ errChan_reads u"
  by (induction t) (simp_all split: action.split)

lemma sigInt_reads_append [simp]: "sigInt_reads (t @ u) = sigInt_reads t @ sigInt_reads u"
  by (induction t) (simp_all split: action.split)

lemma sigHup_reads_append [simp]: "sigHup_reads (t @ u) = sigHup_reads t @ sigHup_reads u"
  by (induction t) (simp_all split: action.split)

lemma quiet_append [simp]: "quiet (t @ u) = (quiet t \<and> quiet u)"
  by (auto simp add: quiet_def)

lemma quiet_simps [simp]:
  "quiet []"
  "quiet (Logged l # t) = quiet t"
  "quiet (Set_fuse_Debug # t) = quiet t"
  "quiet (Call_fuse_Mount p opts # t) = quiet t"
  "quiet (Go_serve # t) = quiet t"
  "quiet (Recv_Ready # t) = quiet t"
  "quiet (Call_Close # t) = quiet t"
  "quiet (Send_errChan v # t) = quiet t"
  "quiet (Recv_sigHup s # t) = quiet t"
  "quiet (Call_Root # t) = quiet t"
  "quiet (Call_ForgetAll # t) = quiet t"
  by (simp_all add: quiet_def)

lemma quiet_map_Logged [simp]: "quiet (map Logged ls)"
  by (induction ls) simp_all

text \<open>The parts of the world the loop starts in, and what a signal leaves alone.\<close>

lemma serving_simps [simp]:
  "trace (serving c t) = t"
  "errChan (serving c t) = c"
  "task (serving c t) = Serve_running"
  "sigInt (serving c t) = make_chan 1"
  "sigHup (serving c t) = make_chan 1"
  by (simp_all add: serving_def)

lemma deliver_simps [simp]:
  "trace (deliver s w) = trace w"
  "errChan (deliver s w) = errChan w"
  "task (deliver s w) = task w"
  by (cases s; simp)+

lemma chan_recv_buf: "chan_recv c = Some (v, c') \<Longrightarrow> buf c = v # buf c' \<and> cap c' = cap c"
  by (auto simp add: chan_recv_def split: list.splits)

lemma serve_goroutine_quiet [simp]: "quiet (trace (serve_goroutine tr w)) = quiet (trace w)"
  by (simp add: serve_goroutine_def Let_def split: task_state.split option.split)

lemma serve_goroutine_errChan_ok: "errChan_ok tr w \<Longrightarrow> errChan_ok tr (serve_goroutine tr w)"
  by (auto simp add: serve_goroutine_def errChan_ok_def serve_result_def chan_send_def Let_def
      split: task_state.split option.split if_splits)

subsection \<open>How a run can end\<close>

text \<open>What \<open>mount\<close> returns, by the two answers of the transport.\<close>

lemma mount_cases:
  "mount tr fl f mp = (x, t) \<Longrightarrow>
     quiet t \<and>
     (case fuse_Mount_err tr of
        Some e \<Rightarrow> x = Inl e
      | None \<Rightarrow> (case conn_MountError tr of Some e \<Rightarrow> x = Inl e | None \<Rightarrow> x = Inr (make_chan 1)))"
  by (auto simp add: mount_def Let_def split: prod.splits option.splits)

text \<open>
  How the loop can stand when the schedule is used up: still waiting, left through the
  interrupt case, or left through the case of \<open>errChan\<close>.
\<close>

lemma waitloop_exit:
  "quiet (trace w) \<Longrightarrow> errChan_ok tr w \<Longrightarrow> waitloop tr mp w ss = (res, w') \<Longrightarrow>
     (res = None \<and> quiet (trace w'))
   \<or> (res = Some (fuse_Unmount_err tr) \<and> unmount_calls (trace w') = [mp]
        \<and> errChan_reads (trace w') = [] \<and> (\<exists>s. sigInt_reads (trace w') = [s]))
   \<or> (res = Some (serve_result tr) \<and> errChan_reads (trace w') = [serve_result tr]
        \<and> unmount_calls (trace w') = [] \<and> sigInt_reads (trace w') = [])"
proof (induction tr mp w ss rule: waitloop.induct)
  case (1 tr mp w)
  then show ?case by simp
next
  case (2 tr mp w ss)
  then show ?case by (simp add: serve_goroutine_errChan_ok)
next
  case (3 tr mp w s ss)
  then show ?case by (simp add: errChan_ok_def)
next
  case (4 tr mp w ss)
  show ?case
  proof (cases "chan_recv (errChan w)")
    case None
    with 4 show ?thesis by simp
  next
    case (Some p)
    obtain v c where p: "p = (v, c)" by (cases p)
    from Some p have "buf (errChan w) = v # buf c" by (simp add: chan_recv_buf)
    with "4.prems"(2) have "v = serve_result tr" by (simp add: errChan_ok_def)
    with 4 Some p show ?thesis by (auto simp add: quiet_def)
  qed
next
  case (5 tr mp w ss)
  show ?case
  proof (cases "chan_recv (sigInt w)")
    case None
    with 5 show ?thesis by simp
  next
    case (Some p)
    obtain v c where p: "p = (v, c)" by (cases p)
    with 5 Some show ?thesis by (auto simp add: quiet_def unmount_def)
  qed
next
  case (6 tr mp w root ss)
  show ?case
  proof (cases "chan_recv (sigHup w)")
    case None
    with 6 show ?thesis by simp
  next
    case (Some p)
    obtain v c where p: "p = (v, c)" by (cases p)
    have "quiet (trace w @ [Recv_sigHup v, Call_Root] @
                 (case root of
                    Some err \<Rightarrow> [Logged (Errorf ''Error reading root: %v'' [err])]
                  | None \<Rightarrow> [Call_ForgetAll]))"
      using "6.prems"(1) by (simp split: option.split)
    with 6 Some p show ?thesis by (simp add: errChan_ok_def)
  qed
qed

text \<open>The two components of \<open>Mount\<close>, from those of the loop.\<close>

lemma fst_Mount:
  "fst (Mount tr fl f mp sched) =
     (case mount tr fl f mp of
        (Inl err, t) \<Rightarrow> Returned (Some (Wrap err ''failed to mount FUSE fs''))
      | (Inr c, t) \<Rightarrow>
          (case fst (waitloop tr mp (serving c (set_debug fl @ t)) sched) of
             None \<Rightarrow> Blocked
           | Some None \<Rightarrow> Returned None
           | Some (Some err) \<Rightarrow> Returned (Some (Wrap err ''failed to umount FUSE fs''))))"
  by (simp add: Mount_def Let_def split: prod.splits sum.splits option.splits)

lemma snd_Mount_failed:
  "mount tr fl f mp = (Inl e, t) \<Longrightarrow> snd (Mount tr fl f mp sched) = set_debug fl @ t"
  by (simp add: Mount_def Let_def)

lemma snd_Mount_serving:
  "mount tr fl f mp = (Inr c, t) \<Longrightarrow>
     snd (Mount tr fl f mp sched) = trace (snd (waitloop tr mp (serving c (set_debug fl @ t)) sched))"
  by (simp add: Mount_def Let_def split: prod.splits option.splits)

text \<open>The ways a run of the whole command can stand at the end of its schedule.\<close>

lemma Mount_cases:
  assumes "Mount tr fl f mp sched = (r, t)"
  shows "(\<exists>e. (fuse_Mount_err tr = Some e \<or> fuse_Mount_err tr = None \<and> conn_MountError tr = Some e)
            \<and> r = Returned (Some (Wrap e ''failed to mount FUSE fs'')) \<and> quiet t)
       \<or> (fuse_Mount_err tr = None \<and> conn_MountError tr = None \<and>
           (r = Blocked \<and> quiet t
          \<or> r = Returned (map_option (\<lambda>e. Wrap e ''failed to umount FUSE fs'') (fuse_Unmount_err tr))
              \<and> unmount_calls t = [mp] \<and> errChan_reads t = [] \<and> (\<exists>s. sigInt_reads t = [s])
          \<or> r = Returned (map_option (\<lambda>e. Wrap e ''failed to umount FUSE fs'') (serve_result tr))
              \<and> errChan_reads t = [serve_result tr] \<and> unmount_calls t = []
              \<and> sigInt_reads t = []))"
proof -
  obtain x t1 where m: "mount tr fl f mp = (x, t1)" by (cases "mount tr fl f mp")
  note mc = mount_cases [OF m]
  show ?thesis
  proof (cases x)
    case (Inl e)
    with m mc assms show ?thesis
      by (auto simp add: Mount_def Let_def set_debug_def split: option.splits)
  next
    case (Inr c)
    with mc have ok: "fuse_Mount_err tr = None" "conn_MountError tr = None" "c = make_chan 1"
      by (auto split: option.splits)
    let ?w = "serving c (set_debug fl @ t1)"
    obtain res w' where wl: "waitloop tr mp ?w sched = (res, w')"
      by (cases "waitloop tr mp ?w sched")
    have q: "quiet (trace ?w)" using mc by (simp add: set_debug_def)
    have e: "errChan_ok tr ?w" using ok by (simp add: errChan_ok_def make_chan_def)
    have r: "(r, t) =
        (case res of
           None \<Rightarrow> (Blocked, trace w')
         | Some v \<Rightarrow>
             (Returned (map_option (\<lambda>e. Wrap e ''failed to umount FUSE fs'') v), trace w'))"
      using assms m Inr wl by (simp add: Mount_def Let_def split: option.splits)
    from waitloop_exit [OF q e wl] r ok show ?thesis
      by auto
  qed
qed









subsection \<open>Where the goroutine is started\<close>

lemma count_Go_serve_map_Logged: "count_list (map Logged ls) Go_serve = 0"
  by (induction ls) simp_all

lemma mount_Go_serve:
  "count_list (snd (mount tr fl f mp)) Go_serve = (if fuse_Mount_err tr = None then 1 else 0)"
  by (simp add: mount_def Let_def count_Go_serve_map_Logged split: prod.splits option.splits)

lemma takeWhile_map_Logged:
  "takeWhile (\<lambda>a. a \<noteq> Recv_Ready) (map Logged ls @ t)
     = map Logged ls @ takeWhile (\<lambda>a. a \<noteq> Recv_Ready) t"
  by (induction ls) simp_all

lemma mount_Go_serve_before_Ready:
  "count_list (takeWhile (\<lambda>a. a \<noteq> Recv_Ready) (snd (mount tr fl f mp))) Go_serve
     = (if fuse_Mount_err tr = None then 1 else 0)"
  by (simp add: mount_def Let_def takeWhile_map_Logged count_Go_serve_map_Logged
      split: prod.splits option.splits)

lemma serve_goroutine_Go_serve:
  "count_list (trace (serve_goroutine tr w)) Go_serve = count_list (trace w) Go_serve"
  by (simp add: serve_goroutine_def Let_def split: task_state.split option.split)

lemma waitloop_Go_serve:
  "waitloop tr mp w ss = (res, w') \<Longrightarrow> count_list (trace w') Go_serve = count_list (trace w) Go_serve"
proof (induction tr mp w ss rule: waitloop.induct)
  case (1 tr mp w)
  then show ?case by simp
next
  case (2 tr mp w ss)
  then show ?case by (simp add: serve_goroutine_Go_serve)
next
  case (3 tr mp w s ss)
  then show ?case by simp
next
  case (4 tr mp w ss)
  then show ?case by (auto split: option.splits)
next
  case (5 tr mp w ss)
  then show ?case by (auto simp add: unmount_def split: option.splits)
next
  case (6 tr mp w root ss)
  then show ?case by (auto split: option.splits)
qed

subsection \<open>The goroutine and its channel\<close>

lemma errChan_sends_map_Logged: "errChan_sends (map Logged ls) = []"
  by (induction ls) simp_all

lemma mount_no_sends: "errChan_sends (snd (mount tr fl f mp)) = []"
  by (simp add: mount_def Let_def errChan_sends_map_Logged split: prod.splits option.splits)

lemma serve_goroutine_task_ok: "task_ok tr w \<Longrightarrow> task_ok tr (serve_goroutine tr w)"
  by (auto simp add: task_ok_def serve_goroutine_def serve_result_def chan_send_def Let_def
      split: task_state.splits option.splits)

lemma serve_goroutine_ends:
  "task_ok tr w \<Longrightarrow>
     task (serve_goroutine tr w) = Task_ended
     \<and> errChan_sends (trace (serve_goroutine tr w)) = [serve_result tr]
     \<and> errChan_reads (trace (serve_goroutine tr w)) = errChan_reads (trace w)
     \<and> buf (errChan (serve_goroutine tr w)) =
         (case task w of
            Serve_running \<Rightarrow> [serve_result tr]
          | Send_blocked \<Rightarrow> buf (errChan w)
          | Task_ended \<Rightarrow> buf (errChan w))"
  by (auto simp add: task_ok_def serve_goroutine_def serve_result_def chan_send_def Let_def
      split: task_state.splits option.splits)

lemma deliver_task_ok: "task_ok tr (deliver s w) = task_ok tr w"
  by (simp add: task_ok_def)

lemma waitloop_task_ok:
  "task_ok tr w \<Longrightarrow> waitloop tr mp w ss = (res, w') \<Longrightarrow> task_ok tr w'"
proof (induction tr mp w ss rule: waitloop.induct)
  case (1 tr mp w)
  then show ?case by simp
next
  case (2 tr mp w ss)
  then show ?case by (simp add: serve_goroutine_task_ok)
next
  case (3 tr mp w s ss)
  then show ?case by (simp add: deliver_task_ok)
next
  case (4 tr mp w ss)
  show ?case
  proof (cases "chan_recv (errChan w)")
    case None
    with 4 show ?thesis by simp
  next
    case (Some p)
    obtain v c where p: "p = (v, c)" by (cases p)
    from Some p have "buf (errChan w) = v # buf c \<and> cap c = cap (errChan w)"
      by (simp add: chan_recv_buf)
    with 4 Some p show ?thesis
      by (auto simp add: task_ok_def split: task_state.splits)
  qed
next
  case (5 tr mp w ss)
  then show ?case
    by (auto simp add: unmount_def task_ok_def split: option.splits task_state.splits)
next
  case (6 tr mp w root ss)
  show ?case
  proof (cases "chan_recv (sigHup w)")
    case None
    with 6 show ?thesis by simp
  next
    case (Some p)
    obtain v c where p: "p = (v, c)" by (cases p)
    have "task_ok tr (w\<lparr>sigHup := c,
               trace := trace w @ [Recv_sigHup v, Call_Root] @
                 (case root of
                    Some err \<Rightarrow> [Logged (Errorf ''Error reading root: %v'' [err])]
                  | None \<Rightarrow> [Call_ForgetAll])\<rparr>)"
      using "6.prems"(1) by (simp add: task_ok_def split: option.split)
    with 6 Some p show ?thesis by simp
  qed
qed

subsection \<open>Root lookups and the result\<close>

text \<open>
  Whether and with what the loop is left depends on the channels and the goroutine
  only, and not on what the root lookups return.
\<close>

lemma serve_goroutine_channels:
  "errChan w2 = errChan w \<Longrightarrow> task w2 = task w \<Longrightarrow>
     errChan (serve_goroutine tr w2) = errChan (serve_goroutine tr w)
     \<and> task (serve_goroutine tr w2) = task (serve_goroutine tr w)"
  by (simp add: serve_goroutine_def Let_def split: task_state.split option.split)

lemma serve_goroutine_signals:
  "sigInt (serve_goroutine tr w) = sigInt w" "sigHup (serve_goroutine tr w) = sigHup w"
  by (simp_all add: serve_goroutine_def Let_def split: task_state.split option.split)

lemma deliver_channels:
  "sigInt w2 = sigInt w \<Longrightarrow> sigHup w2 = sigHup w \<Longrightarrow>
     sigInt (deliver s w2) = sigInt (deliver s w) \<and> sigHup (deliver s w2) = sigHup (deliver s w)"
  by (cases s) simp_all

lemma waitloop_result_root_lookup:
  "errChan w2 = errChan w \<Longrightarrow> task w2 = task w \<Longrightarrow> sigInt w2 = sigInt w \<Longrightarrow>
   sigHup w2 = sigHup w \<Longrightarrow>
     fst (waitloop tr mp w2 (map root_lookup_ok ss)) = fst (waitloop tr mp w ss)"
proof (induction tr mp w ss arbitrary: w2 rule: waitloop.induct)
  case (1 tr mp w)
  then show ?case by simp
next
  case (2 tr mp w ss)
  from serve_goroutine_channels [OF "2.prems"(1) "2.prems"(2), of tr] "2.prems"
  show ?case by (simp add: "2.IH" serve_goroutine_signals)
next
  case (3 tr mp w s ss)
  from deliver_channels [OF "3.prems"(3) "3.prems"(4), of s] "3.prems"
  show ?case by (simp add: "3.IH")
next
  case (4 tr mp w ss)
  then show ?case by (auto split: option.splits)
next
  case (5 tr mp w ss)
  then show ?case by (auto simp add: unmount_def split: option.splits)
next
  case (6 tr mp w root ss)
  then show ?case by (auto split: option.splits)
qed

subsection \<open>Rounds of hang-ups\<close>









subsection \<open>What is reported after an interrupt\<close>

text \<open>
  Claim C1, as amended. In every run in which the loop takes the interrupt case (it calls
  \<open>unmount\<close> and leaves the loop), \<open>Mount\<close> returns the error of \<open>fuse.Unmount\<close>
  wrapped with \<open>failed to umount FUSE fs\<close> when that error is non-nil, and nil
  otherwise. The result of the serve goroutine plays no part.
\<close>

theorem interrupt_reports_unmount_error:
  "Mount tr fl f mp sched = (r, t) \<Longrightarrow> sigInt_reads t \<noteq> [] \<Longrightarrow>
     r = Returned (map_option (\<lambda>e. Wrap e ''failed to umount FUSE fs'') (fuse_Unmount_err tr))"
  using Mount_cases [of tr fl f mp sched r t]
  by (auto simp add: quiet_def)

theorem interrupt_reports_unmount_error_witness:
  "sigInt_reads (snd (Mount (ex_transport None (Some ''EIO'') (Some ''busy'')) ex_flags ex_remote
       ''/mnt/x'' [Serve_returns, Signal SIGINT, Select_sigInt])) \<noteq> []
   \<and> fst (Mount (ex_transport None (Some ''EIO'') (Some ''busy'')) ex_flags ex_remote
       ''/mnt/x'' [Serve_returns, Signal SIGINT, Select_sigInt])
     = Returned (Some ''failed to umount FUSE fs: busy'')"
  using interrupt_reports_unmount_error
    [of "ex_transport None (Some ''EIO'') (Some ''busy'')" ex_flags ex_remote "''/mnt/x''"
        "[Serve_returns, Signal SIGINT, Select_sigInt]"
        "fst (Mount (ex_transport None (Some ''EIO'') (Some ''busy'')) ex_flags ex_remote
           ''/mnt/x'' [Serve_returns, Signal SIGINT, Select_sigInt])"
        "snd (Mount (ex_transport None (Some ''EIO'') (Some ''busy'')) ex_flags ex_remote
           ''/mnt/x'' [Serve_returns, Signal SIGINT, Select_sigInt])"]
  by (simp add: run_defs)

text \<open>
  The claim as the specification words it fails: the serve loop ends with \<open>EIO\<close>, the
  goroutine sends that error, the interrupt case is taken, \<open>fuse.Unmount\<close> returns nil,
  and \<open>Mount\<close> returns nil, not the serve error.
\<close>

theorem serve_error_not_reported_counterexample:
  "fuse_Unmount_err (ex_transport None (Some ''EIO'') None) = None
   \<and> errChan_sends (snd (Mount (ex_transport None (Some ''EIO'') None) ex_flags ex_remote
        ''/mnt/x'' [Serve_returns, Signal SIGINT, Select_sigInt])) = [Some ''EIO'']
   \<and> sigInt_reads (snd (Mount (ex_transport None (Some ''EIO'') None) ex_flags ex_remote
        ''/mnt/x'' [Serve_returns, Signal SIGINT, Select_sigInt])) = [SIGINT]
   \<and> fst (Mount (ex_transport None (Some ''EIO'') None) ex_flags ex_remote
        ''/mnt/x'' [Serve_returns, Signal SIGINT, Select_sigInt]) = Returned None"
  by (simp add: run_defs)

subsection \<open>Establishing the mount and starting the goroutine\<close>

text \<open>
  Claim C2, as amended. The serve goroutine is started exactly when \<open>fuse.Mount\<close>
  succeeds: a run in which \<open>fuse.Mount\<close> returns an error never starts it, and a run in
  which \<open>fuse.Mount\<close> succeeds starts it once, whatever \<open>c.MountError\<close> then holds;
  for \<open>mount\<close> starts it before it waits for \<open>c.Ready\<close>.
\<close>

theorem goroutine_started_iff_fuse_Mount_succeeds:
  "count_list (snd (Mount tr fl f mp sched)) Go_serve = (if fuse_Mount_err tr = None then 1 else 0)
   \<and> count_list (takeWhile (\<lambda>a. a \<noteq> Recv_Ready) (snd (mount tr fl f mp))) Go_serve
       = (if fuse_Mount_err tr = None then 1 else 0)"
proof -
  obtain x t1 where m: "mount tr fl f mp = (x, t1)" by (cases "mount tr fl f mp")
  from mount_Go_serve [of tr fl f mp] m
  have t1: "count_list t1 Go_serve = (if fuse_Mount_err tr = None then 1 else 0)" by simp
  have "count_list (snd (Mount tr fl f mp sched)) Go_serve = (if fuse_Mount_err tr = None then 1 else 0)"
  proof (cases x)
    case (Inl e)
    with m t1 show ?thesis
      by (simp add: snd_Mount_failed set_debug_def)
  next
    case (Inr c)
    obtain res w' where wl: "waitloop tr mp (serving c (set_debug fl @ t1)) sched = (res, w')"
      by (cases "waitloop tr mp (serving c (set_debug fl @ t1)) sched")
    from waitloop_Go_serve [OF wl] have "count_list (trace w') Go_serve = count_list t1 Go_serve"
      by (simp add: set_debug_def)
    moreover have "snd (Mount tr fl f mp sched) = trace w'"
      using m Inr wl by (simp add: snd_Mount_serving)
    ultimately show ?thesis using t1 by simp
  qed
  with mount_Go_serve_before_Ready [of tr fl f mp] show ?thesis by simp
qed

text \<open>
  The claim as the specification words it fails: \<open>fuse.Mount\<close> succeeds, the readiness
  signal brings the error \<open>already mounted\<close>, \<open>Mount\<close> returns that error as a failure
  to mount, and the goroutine has been started.
\<close>

theorem goroutine_started_before_MountError_counterexample:
  "conn_MountError (ex_transport (Some ''already mounted'') None None) = Some ''already mounted''
   \<and> fst (Mount (ex_transport (Some ''already mounted'') None None) ex_flags ex_remote ''/mnt/x'' [])
       = Returned (Some ''failed to mount FUSE fs: already mounted'')
   \<and> count_list (snd (Mount (ex_transport (Some ''already mounted'') None None) ex_flags ex_remote
        ''/mnt/x'' [])) Go_serve = 1"
  by (simp add: run_defs)

subsection \<open>The result of the command\<close>




subsection \<open>Interrupts\<close>

text \<open>
  Claim C6. In every run in which the loop takes the interrupt case, whatever the
  goroutine has sent or sends meanwhile, \<open>Mount\<close> returns, and \<open>fuse.Unmount\<close> has
  been called exactly once in the run, on the mount point.
\<close>

theorem interrupt_unmounts_once:
  "Mount tr fl f mp sched = (r, t) \<Longrightarrow> sigInt_reads t \<noteq> [] \<Longrightarrow>
     unmount_calls t = [mp] \<and> (\<exists>err. r = Returned err)"
  using Mount_cases [of tr fl f mp sched r t]
  by (auto simp add: quiet_def)

theorem interrupt_unmounts_once_witness:
  "sigInt_reads (snd (Mount (ex_transport None (Some ''EIO'') None) ex_flags ex_remote ''/mnt/x''
       [Signal SIGINT, Serve_returns, Select_sigInt, Select_errChan])) \<noteq> []
   \<and> errChan_sends (snd (Mount (ex_transport None (Some ''EIO'') None) ex_flags ex_remote ''/mnt/x''
       [Signal SIGINT, Serve_returns, Select_sigInt, Select_errChan])) = [Some ''EIO'']
   \<and> unmount_calls (snd (Mount (ex_transport None (Some ''EIO'') None) ex_flags ex_remote ''/mnt/x''
       [Signal SIGINT, Serve_returns, Select_sigInt, Select_errChan])) = [''/mnt/x'']"
  using interrupt_unmounts_once
    [of "ex_transport None (Some ''EIO'') None" ex_flags ex_remote "''/mnt/x''"
        "[Signal SIGINT, Serve_returns, Select_sigInt, Select_errChan]"
        "fst (Mount (ex_transport None (Some ''EIO'') None) ex_flags ex_remote ''/mnt/x''
           [Signal SIGINT, Serve_returns, Select_sigInt, Select_errChan])"
        "snd (Mount (ex_transport None (Some ''EIO'') None) ex_flags ex_remote ''/mnt/x''
           [Signal SIGINT, Serve_returns, Select_sigInt, Select_errChan])"]
  by (simp add: run_defs)

text \<open>
  Claim C10. In every run in which the loop takes the interrupt case and
  \<open>fuse.Unmount\<close> returns nil, whatever the serve loop and the close return, \<open>Mount\<close>
  returns nil and nothing was ever received from \<open>errChan\<close>.
\<close>

theorem interrupt_clean_unmount_returns_nil:
  "Mount tr fl f mp sched = (r, t) \<Longrightarrow> sigInt_reads t \<noteq> [] \<Longrightarrow> fuse_Unmount_err tr = None \<Longrightarrow>
     r = Returned None \<and> errChan_reads t = []"
  using Mount_cases [of tr fl f mp sched r t]
  by (auto simp add: quiet_def)

theorem interrupt_clean_unmount_returns_nil_witness:
  "sigInt_reads (snd (Mount (ex_transport None (Some ''EIO'') None) ex_flags ex_remote ''/mnt/x''
       [Serve_returns, Signal SIGTERM, Select_sigInt])) \<noteq> []
   \<and> fuse_Unmount_err (ex_transport None (Some ''EIO'') None) = None
   \<and> serve_result (ex_transport None (Some ''EIO'') None) = Some ''EIO''
   \<and> fst (Mount (ex_transport None (Some ''EIO'') None) ex_flags ex_remote ''/mnt/x''
       [Serve_returns, Signal SIGTERM, Select_sigInt]) = Returned None
   \<and> errChan_reads (snd (Mount (ex_transport None (Some ''EIO'') None) ex_flags ex_remote ''/mnt/x''
       [Serve_returns, Signal SIGTERM, Select_sigInt])) = []"
  using interrupt_clean_unmount_returns_nil
    [of "ex_transport None (Some ''EIO'') None" ex_flags ex_remote "''/mnt/x''"
        "[Serve_returns, Signal SIGTERM, Select_sigInt]"
        "fst (Mount (ex_transport None (Some ''EIO'') None) ex_flags ex_remote ''/mnt/x''
           [Serve_returns, Signal SIGTERM, Select_sigInt])"
        "snd (Mount (ex_transport None (Some ''EIO'') None) ex_flags ex_remote ''/mnt/x''
           [Serve_returns, Signal SIGTERM, Select_sigInt])"]
  by (simp add: run_defs serve_result_def)

subsection \<open>The serve goroutine\<close>

text \<open>
  Claim C4. Take any run in which the mount is established, at any point of the loop
  (the world \<open>w\<close> a schedule leads to). The channel \<open>errChan\<close> has capacity 1 and the
  goroutine is not stuck in its send. It has sent nothing while the serve loop runs and
  exactly one value once it has ended: the serve error if that is non-nil, else the close
  error. What it has sent is in the channel until the loop receives it. And when the
  serve loop returns in \<open>w\<close>, the goroutine runs to its end with no receive needed: it
  has then sent exactly that one value, and if it was still running in \<open>w\<close> the value
  is now the one value waiting in the channel. The last holds as well for a goroutine
  that no loop ever waits for, as after a mount error read from \<open>c.MountError\<close>:
  started on its new channel of capacity 1, it ends with its one value written into the
  channel, where a receive finds it.
\<close>

theorem goroutine_sends_once_without_reader:
  assumes "mount tr fl f mp = (Inr c, t)"
    and "waitloop tr mp (serving c (set_debug fl @ t)) ss = (res, w)"
  shows "cap (errChan w) = 1
     \<and> task w \<noteq> Send_blocked
     \<and> errChan_sends (trace w) =
         (case task w of Task_ended \<Rightarrow> [case Serve_err tr of Some e \<Rightarrow> Some e | None \<Rightarrow> Close_err tr]
          | Serve_running \<Rightarrow> [] | Send_blocked \<Rightarrow> [])
     \<and> errChan_reads (trace w) @ buf (errChan w) = errChan_sends (trace w)
     \<and> task (serve_goroutine tr w) = Task_ended
     \<and> errChan_sends (trace (serve_goroutine tr w))
         = [case Serve_err tr of Some e \<Rightarrow> Some e | None \<Rightarrow> Close_err tr]
     \<and> buf (errChan (serve_goroutine tr w)) =
         (case task w of
            Serve_running \<Rightarrow> [case Serve_err tr of Some e \<Rightarrow> Some e | None \<Rightarrow> Close_err tr]
          | Send_blocked \<Rightarrow> buf (errChan w)
          | Task_ended \<Rightarrow> buf (errChan w))
     \<and> errChan_reads (trace w) @ buf (errChan (serve_goroutine tr w))
         = [case Serve_err tr of Some e \<Rightarrow> Some e | None \<Rightarrow> Close_err tr]
     \<and> task (serve_goroutine tr (serving (make_chan 1) t0)) = Task_ended
     \<and> errChan_sends (trace (serve_goroutine tr (serving (make_chan 1) t0)))
         = errChan_sends t0 @ [case Serve_err tr of Some e \<Rightarrow> Some e | None \<Rightarrow> Close_err tr]
     \<and> buf (errChan (serve_goroutine tr (serving (make_chan 1) t0)))
         = [case Serve_err tr of Some e \<Rightarrow> Some e | None \<Rightarrow> Close_err tr]
     \<and> chan_recv (errChan (serve_goroutine tr (serving (make_chan 1) t0)))
         = Some (case Serve_err tr of Some e \<Rightarrow> Some e | None \<Rightarrow> Close_err tr, make_chan 1)"
proof -
  from mount_cases [OF assms(1)] have c: "c = make_chan 1" and q: "quiet t"
    by (auto split: option.splits)
  from mount_no_sends [of tr fl f mp] assms(1) have s: "errChan_sends t = []"
    by simp
  have "task_ok tr (serving c (set_debug fl @ t))"
    using c s q by (simp add: task_ok_def make_chan_def set_debug_def quiet_def)
  from waitloop_task_ok [OF this assms(2)] have ok: "task_ok tr w" .
  have fresh: "task (serve_goroutine tr (serving (make_chan 1) t0)) = Task_ended
     \<and> errChan_sends (trace (serve_goroutine tr (serving (make_chan 1) t0)))
         = errChan_sends t0 @ [serve_result tr]
     \<and> buf (errChan (serve_goroutine tr (serving (make_chan 1) t0))) = [serve_result tr]
     \<and> chan_recv (errChan (serve_goroutine tr (serving (make_chan 1) t0)))
         = Some (serve_result tr, make_chan 1)"
    by (simp add: serve_goroutine_def serving_def make_chan_def chan_send_def chan_recv_def
        serve_result_def Let_def split: option.split)
  have after: "errChan_reads (trace w) @ buf (errChan (serve_goroutine tr w)) = [serve_result tr]"
    using ok serve_goroutine_task_ok [OF ok] serve_goroutine_ends [OF ok]
    by (simp add: task_ok_def)
  have sr: "(case Serve_err tr of Some e \<Rightarrow> Some e | None \<Rightarrow> Close_err tr) = serve_result tr"
    by (simp add: serve_result_def)
  from ok have now: "cap (errChan w) = 1 \<and> task w \<noteq> Send_blocked
     \<and> errChan_sends (trace w) =
         (case task w of Task_ended \<Rightarrow> [serve_result tr] | Serve_running \<Rightarrow> [] | Send_blocked \<Rightarrow> [])
     \<and> errChan_reads (trace w) @ buf (errChan w) = errChan_sends (trace w)"
    by (auto simp add: task_ok_def split: task_state.splits)
  from now fresh after serve_goroutine_ends [OF ok] show ?thesis
    unfolding sr by simp
qed

theorem goroutine_sends_once_without_reader_witness:
  "mount (ex_transport None None None\<lparr>Close_err := Some ''EBADF''\<rparr>) ex_flags ex_remote ''/mnt/x''
     = (Inr (make_chan 1),
        snd (mount (ex_transport None None None\<lparr>Close_err := Some ''EBADF''\<rparr>) ex_flags ex_remote ''/mnt/x''))
   \<and> task (snd (waitloop (ex_transport None None None\<lparr>Close_err := Some ''EBADF''\<rparr>) ''/mnt/x''
        (serving (make_chan 1) (set_debug ex_flags @
           snd (mount (ex_transport None None None\<lparr>Close_err := Some ''EBADF''\<rparr>) ex_flags ex_remote ''/mnt/x'')))
        [Signal SIGHUP, Serve_returns, Select_sigHup None])) = Task_ended
   \<and> errChan_sends (trace (snd (waitloop (ex_transport None None None\<lparr>Close_err := Some ''EBADF''\<rparr>) ''/mnt/x''
        (serving (make_chan 1) (set_debug ex_flags @
           snd (mount (ex_transport None None None\<lparr>Close_err := Some ''EBADF''\<rparr>) ex_flags ex_remote ''/mnt/x'')))
        [Signal SIGHUP, Serve_returns, Select_sigHup None]))) = [Some ''EBADF'']
   \<and> errChan_reads (trace (snd (waitloop (ex_transport None None None\<lparr>Close_err := Some ''EBADF''\<rparr>) ''/mnt/x''
        (serving (make_chan 1) (set_debug ex_flags @
           snd (mount (ex_transport None None None\<lparr>Close_err := Some ''EBADF''\<rparr>) ex_flags ex_remote ''/mnt/x'')))
        [Signal SIGHUP, Serve_returns, Select_sigHup None]))) = []
   \<and> buf (errChan (snd (waitloop (ex_transport None None None\<lparr>Close_err := Some ''EBADF''\<rparr>) ''/mnt/x''
        (serving (make_chan 1) (set_debug ex_flags @
           snd (mount (ex_transport None None None\<lparr>Close_err := Some ''EBADF''\<rparr>) ex_flags ex_remote ''/mnt/x'')))
        [Signal SIGHUP, Serve_returns, Select_sigHup None]))) = [Some ''EBADF'']"
  using goroutine_sends_once_without_reader
    [of "ex_transport None None None\<lparr>Close_err := Some ''EBADF''\<rparr>" ex_flags ex_remote "''/mnt/x''"
        "make_chan 1"
        "snd (mount (ex_transport None None None\<lparr>Close_err := Some ''EBADF''\<rparr>) ex_flags ex_remote ''/mnt/x'')"
        "[Signal SIGHUP, Serve_returns, Select_sigHup None]"
        "fst (waitloop (ex_transport None None None\<lparr>Close_err := Some ''EBADF''\<rparr>) ''/mnt/x''
          (serving (make_chan 1) (set_debug ex_flags @
             snd (mount (ex_transport None None None\<lparr>Close_err := Some ''EBADF''\<rparr>) ex_flags ex_remote ''/mnt/x'')))
          [Signal SIGHUP, Serve_returns, Select_sigHup None])"
        "snd (waitloop (ex_transport None None None\<lparr>Close_err := Some ''EBADF''\<rparr>) ''/mnt/x''
          (serving (make_chan 1) (set_debug ex_flags @
             snd (mount (ex_transport None None None\<lparr>Close_err := Some ''EBADF''\<rparr>) ex_flags ex_remote ''/mnt/x'')))
          [Signal SIGHUP, Serve_returns, Select_sigHup None])"]
  by (simp add: run_defs)

subsection \<open>Hang-ups\<close>

text \<open>
  Claim C5. A round of the loop that takes the hang-up case while the root lookup fails
  with \<open>e\<close> leaves the loop waiting in its \<open>select\<close>: it receives the signal, calls
  \<open>FS.Root\<close> and logs the error (and does nothing when no hang-up is pending); it calls
  neither \<open>fuse.Unmount\<close> nor \<open>ForgetAll\<close>, leaves \<open>errChan\<close>, the goroutine and
  \<open>sigInt\<close> as they were, and the loop goes on from there. What \<open>Mount\<close> returns is
  the same as in the run where every root lookup succeeds.
\<close>

theorem failed_root_lookup_ignored:
  "fst (waitloop tr mp w [Select_sigHup (Some e)]) = None
   \<and> trace (snd (waitloop tr mp w [Select_sigHup (Some e)])) =
       trace w @ (case buf (sigHup w) of
                    [] \<Rightarrow> []
                  | s # rest \<Rightarrow>
                      [Recv_sigHup s, Call_Root, Logged (Errorf ''Error reading root: %v'' [e])])
   \<and> unmount_calls (trace (snd (waitloop tr mp w [Select_sigHup (Some e)]))) = unmount_calls (trace w)
   \<and> count_list (trace (snd (waitloop tr mp w [Select_sigHup (Some e)]))) Call_ForgetAll
       = count_list (trace w) Call_ForgetAll
   \<and> errChan (snd (waitloop tr mp w [Select_sigHup (Some e)])) = errChan w
   \<and> task (snd (waitloop tr mp w [Select_sigHup (Some e)])) = task w
   \<and> sigInt (snd (waitloop tr mp w [Select_sigHup (Some e)])) = sigInt w
   \<and> waitloop tr mp w (Select_sigHup (Some e) # ss)
       = waitloop tr mp (snd (waitloop tr mp w [Select_sigHup (Some e)])) ss
   \<and> fst (Mount tr fl f mp (map root_lookup_ok sched)) = fst (Mount tr fl f mp sched)"
proof -
  have "fst (Mount tr fl f mp (map root_lookup_ok sched)) = fst (Mount tr fl f mp sched)"
    by (simp add: fst_Mount waitloop_result_root_lookup [OF refl refl refl refl]
        split: prod.splits sum.splits)
  then show ?thesis
    by (simp add: chan_recv_def split: list.splits)
qed




subsection \<open>The option builder\<close>

text \<open>
  Claim C7, as amended. For all flags and every device name the options built are the
  six options that are always there (the read-ahead taken from the flag, the subtype
  \<open>rclone\<close>, the device as file system name and as volume name, and the two Apple
  options), followed by the options of exactly the flags that are set, in the fixed order
  of the flags; each flag's option is in the result exactly when the flag is set. The
  extra options change nothing in the result: they only decide whether warnings are
  logged, and the function always returns its list.
\<close>

theorem mountOptions_fixed_then_flags:
  "fst (mountOptions fl device) = fixed_options fl device @ implied_options fl
   \<and> (fuse_AllowNonEmptyMount \<in> set (fst (mountOptions fl device))) = AllowNonEmpty fl
   \<and> (fuse_AllowOther \<in> set (fst (mountOptions fl device))) = AllowOther fl
   \<and> (fuse_AllowRoot \<in> set (fst (mountOptions fl device))) = AllowRoot fl
   \<and> (fuse_DefaultPermissions \<in> set (fst (mountOptions fl device))) = DefaultPermissions fl
   \<and> (fuse_ReadOnly \<in> set (fst (mountOptions fl device))) = Opt_ReadOnly fl
   \<and> (fuse_WritebackCache \<in> set (fst (mountOptions fl device))) = WritebackCache fl
   \<and> distinct (fst (mountOptions fl device))
   \<and> fst (mountOptions (fl\<lparr>ExtraOptions := extra\<rparr>) device) = fst (mountOptions fl device)
   \<and> (snd (mountOptions fl device) = []) = (ExtraOptions fl = [])
   \<and> snd (mountOptions (fl\<lparr>ExtraOptions := []\<rparr>) device) = []"
  by (simp add: mountOptions_def fixed_options_def implied_options_def flag_options_def Let_def)

text \<open>
  The claim as the specification words it fails: with no flag set, no option is implied
  by a flag, and the result still holds six options.
\<close>

theorem options_without_flags_counterexample:
  "implied_options no_flags = []
   \<and> fst (mountOptions no_flags ''remoteX:'') =
       [fuse_MaxReadahead 131072, fuse_Subtype ''rclone'', fuse_FSName ''remoteX:'',
        fuse_VolumeName ''remoteX:'', fuse_NoAppleDouble, fuse_NoAppleXattr]"
  by (simp add: mountOptions_def implied_options_def flag_options_def no_flags_def)

text \<open>
  Claim C9. For all flags the warning about \<open>--fuse-flag\<close> is logged exactly when
  \<open>mountlib.ExtraOptions\<close> is not empty, which is exactly when the warning about
  \<open>-o/--option\<close> is logged: the log is empty, or it is the two warnings in this order.
\<close>

theorem fuse_flag_warning_iff_ExtraOptions:
  "(Errorf ''--fuse-flag not supported with this FUSE backend'' []
      \<in> set (snd (mountOptions fl device))) = (ExtraOptions fl \<noteq> [])
   \<and> (Errorf ''--fuse-flag not supported with this FUSE backend'' []
        \<in> set (snd (mountOptions fl device)))
     = (Errorf ''-o/--option not supported with this FUSE backend'' []
        \<in> set (snd (mountOptions fl device)))
   \<and> snd (mountOptions fl device) =
       (if ExtraOptions fl = [] then []
        else [Errorf ''-o/--option not supported with this FUSE backend'' [],
              Errorf ''--fuse-flag not supported with this FUSE backend'' []])"
  by (simp add: mountOptions_def Let_def)

end
